theory Spec2Isabelle
  imports Complex_Main "HOL-Library.Multiset"
begin

section \<open>Numbers\<close>

text \<open>
  The program computes with JavaScript numbers, which are IEEE 754 double precision
  numbers. Three readings of them are used here, one for each part of the program.

  \<^item> \<open>calculateError\<close> only adds, subtracts, multiplies and squares. Its model computes
    in double arithmetic: the type \<open>number\<close> below, with rounding to nearest (ties to
    even), overflow to the infinities, and \<open>NaN\<close>.
  \<^item> \<open>calculatePlaneEquation\<close> calls \<open>Math.sin\<close> and \<open>Math.cos\<close>, whose results the
    language leaves to the engine. Its model reads the formulas of the code over the
    reals (\<open>Math.PI\<close> is \<open>pi\<close>), with a division by zero made explicit: it says what the
    formulas mean, not which doubles an engine returns.
  \<^item> \<open>generateDataPoints\<close> is modelled over the reals, for a finite \<open>noise\<close>. What is
    proved of it below is about the clamp and about a value compared with itself.
\<close>

subsection \<open>Double arithmetic\<close>

text \<open>
  A number is a finite real, an infinity or \<open>NaN\<close>. The finite numbers of the program
  are the reals that \<open>to_double\<close> leaves as they are. The two zeros of IEEE 754 are one
  value here, as they are for \<open>===\<close>; the modelled code never divides, so they cannot be
  told apart by it.
\<close>

datatype number = Finite real | PosInf | NegInf | NaN

text \<open>Rounding a real to an integer, a tie to the even neighbour.\<close>

definition round_even :: "real \<Rightarrow> int" where
  "round_even t =
     (let f = \<lfloor>t\<rfloor>
      in if t - of_int f < 1 / 2 then f
         else if 1 / 2 < t - of_int f then f + 1
         else if even f then f else f + 1)"

text \<open>
  The exponent of the unit in the last place of a positive real: 52 below that of its
  leading bit, and never below that of the subnormal numbers.
\<close>

definition exponent :: "real \<Rightarrow> int" where
  "exponent a = max (\<lfloor>log 2 a\<rfloor> - 52) (- 1074)"

text \<open>A positive real, rounded to 53 significant bits.\<close>

definition round_magnitude :: "real \<Rightarrow> real" where
  "round_magnitude a =
     of_int (round_even (a / 2 powr of_int (exponent a))) * 2 powr of_int (exponent a)"

text \<open>
  The double nearest to a real; a magnitude that rounds to \<open>2\<^sup>1\<^sup>0\<^sup>2\<^sup>4\<close> or more
  overflows.
\<close>

definition to_double :: "real \<Rightarrow> number" where
  "to_double v =
     (if v = 0 then Finite 0
      else if 0 < v then
        (if 2 ^ 1024 \<le> round_magnitude v then PosInf else Finite (round_magnitude v))
      else
        (if 2 ^ 1024 \<le> round_magnitude (- v) then NegInf else Finite (- round_magnitude (- v))))"

text \<open>
  The operators \<open>-\<close> (unary), \<open>+\<close>, \<open>-\<close> and \<open>*\<close> on numbers: the exact result of finite
  operands is rounded, the other cases are those of IEEE 754.
\<close>

fun number_neg :: "number \<Rightarrow> number" where
  "number_neg (Finite a) = Finite (- a)"
| "number_neg PosInf = NegInf"
| "number_neg NegInf = PosInf"
| "number_neg NaN = NaN"

fun number_add :: "number \<Rightarrow> number \<Rightarrow> number" where
  "number_add NaN b = NaN"
| "number_add a NaN = NaN"
| "number_add PosInf NegInf = NaN"
| "number_add NegInf PosInf = NaN"
| "number_add PosInf b = PosInf"
| "number_add a PosInf = PosInf"
| "number_add NegInf b = NegInf"
| "number_add a NegInf = NegInf"
| "number_add (Finite a) (Finite b) = to_double (a + b)"

definition number_sub :: "number \<Rightarrow> number \<Rightarrow> number" where
  "number_sub a b = number_add a (number_neg b)"

fun number_mul :: "number \<Rightarrow> number \<Rightarrow> number" where
  "number_mul NaN b = NaN"
| "number_mul a NaN = NaN"
| "number_mul (Finite a) (Finite b) = to_double (a * b)"
| "number_mul (Finite a) PosInf = (if a = 0 then NaN else if 0 < a then PosInf else NegInf)"
| "number_mul (Finite a) NegInf = (if a = 0 then NaN else if 0 < a then NegInf else PosInf)"
| "number_mul PosInf (Finite b) = (if b = 0 then NaN else if 0 < b then PosInf else NegInf)"
| "number_mul NegInf (Finite b) = (if b = 0 then NaN else if 0 < b then NegInf else PosInf)"
| "number_mul PosInf PosInf = PosInf"
| "number_mul PosInf NegInf = NegInf"
| "number_mul NegInf PosInf = NegInf"
| "number_mul NegInf NegInf = PosInf"

text \<open>
  \<open>Math.pow(base, 2)\<close>. The language fixes the result for \<open>NaN\<close>, the infinities and
  zero; for any other base it is a value that the engine chooses to approximate the
  square, which is the parameter \<open>pow2\<close> here.
\<close>

fun Math_pow_2 :: "(real \<Rightarrow> number) \<Rightarrow> number \<Rightarrow> number" where
  "Math_pow_2 pow2 NaN = NaN"
| "Math_pow_2 pow2 PosInf = PosInf"
| "Math_pow_2 pow2 NegInf = PosInf"
| "Math_pow_2 pow2 (Finite b) = (if b = 0 then Finite 0 else pow2 b)"

text \<open>An engine whose \<open>Math.pow(base, 2)\<close> is the double nearest to the square.\<close>

definition correctly_rounded_square :: "real \<Rightarrow> number" where
  "correctly_rounded_square b = to_double (b * b)"

text \<open>
  What the theorems below ask of an engine's \<open>pow2\<close>: that it never returns a negative
  number or \<open>NaN\<close>, and that it returns doubles.
\<close>

fun number_nonneg :: "number \<Rightarrow> bool" where
  "number_nonneg (Finite a) = (0 \<le> a)"
| "number_nonneg PosInf = True"
| "number_nonneg NegInf = False"
| "number_nonneg NaN = False"

fun is_double :: "number \<Rightarrow> bool" where
  "is_double (Finite a) = (to_double a = Finite a)"
| "is_double PosInf = True"
| "is_double NegInf = True"
| "is_double NaN = True"

definition nonneg_square :: "(real \<Rightarrow> number) \<Rightarrow> bool" where
  "nonneg_square pow2 = (\<forall>b. number_nonneg (pow2 b))"

definition double_valued :: "(real \<Rightarrow> number) \<Rightarrow> bool" where
  "double_valued pow2 = (\<forall>b. is_double (pow2 b))"

subsection \<open>Quotients of reals\<close>


section \<open>Data model\<close>

text \<open>\<open>RegressionCube.tsx\<close>, the constants for the cube dimensions.\<close>

definition CUBE_SIZE :: real where
  "CUBE_SIZE = 5"

definition HALF_SIZE :: real where
  "HALF_SIZE = CUBE_SIZE / 2"

text \<open>
  The interface \<open>Point3D\<close> that each of the two components declares. The type \<open>'n\<close> of
  the coordinates is \<open>number\<close> for the points that \<open>calculateError\<close> is given and \<open>real\<close>
  for the points that \<open>generateDataPoints\<close> makes.
\<close>

record 'n Point3D =
  x :: 'n
  y :: 'n
  z :: 'n

text \<open>
  The object type \<open>{ beta0: number; beta1: number; beta2: number }\<close> that
  \<open>calculateError\<close> takes, and the object \<open>{ beta0, beta1, beta2, normalVector }\<close> that
  \<open>calculatePlaneEquation\<close> returns, which extends it by one field. The type \<open>'n\<close> of the
  coefficients is \<open>number\<close> for \<open>calculateError\<close> and \<open>real option\<close> where they are
  quotients of reals.
\<close>

record 'n Equation =
  beta0 :: 'n
  beta1 :: 'n
  beta2 :: 'n


section \<open>\<open>RegressionStats.tsx\<close>\<close>


text \<open>
  \<open>calculateError(points, equation)\<close> in double arithmetic: \<open>points.reduce(f, 0)\<close> is a
  left fold from 0, and \<open>beta0 + beta1 * point.x + beta2 * point.z\<close> associates to the
  left.
\<close>

definition calculateError ::
  "(real \<Rightarrow> number) \<Rightarrow> number Point3D list \<Rightarrow> (number, 'm) Equation_scheme \<Rightarrow> number" where
  "calculateError pow2 points equation =
     foldl (\<lambda>totalError point.
              (let predictedY =
                     number_add (number_add (beta0 equation)
                                            (number_mul (beta1 equation) (x point)))
                                (number_mul (beta2 equation) (z point));
                   error = Math_pow_2 pow2 (number_sub (y point) predictedY)
               in number_add totalError error))
           (Finite 0) points"

text \<open>The squared residual of one point, as the fold of \<open>calculateError\<close> adds it.\<close>

definition squared_residual ::
  "(real \<Rightarrow> number) \<Rightarrow> (number, 'm) Equation_scheme \<Rightarrow> number Point3D \<Rightarrow> number" where
  "squared_residual pow2 equation point =
     Math_pow_2 pow2
       (number_sub (y point)
          (number_add (number_add (beta0 equation) (number_mul (beta1 equation) (x point)))
                      (number_mul (beta2 equation) (z point))))"

section \<open>\<open>RegressionCube.tsx\<close>\<close>

subsection \<open>The random source and arrays\<close>

text \<open>
  \<open>Math.random()\<close> reads a hidden generator. The model passes it explicitly: the
  sequence of the numbers it will hand out, and how many have been handed out. That each
  of them lies in \<open>[0, 1)\<close> is a hypothesis of the theorems that need it.
\<close>

record Random =
  draws :: "nat \<Rightarrow> real"
  drawn :: nat

definition Math_random :: "Random \<Rightarrow> real \<times> Random" where
  "Math_random rng = (draws rng (drawn rng), rng\<lparr>drawn := Suc (drawn rng)\<rparr>)"


text \<open>A source that hands out the same number forever, for concrete runs.\<close>

definition fixed_source :: "real \<Rightarrow> Random" where
  "fixed_source v = \<lparr> draws = (\<lambda>_. v), drawn = 0 \<rparr>"

text \<open>
  \<open>Array(len).fill(v)\<close>. By the language \<open>Array(len)\<close> throws \<open>RangeError\<close> (invalid
  array length) unless \<open>len\<close> is an integer from 0 to \<open>2\<^sup>3\<^sup>2 - 1\<close>. An engine gives up
  earlier, at a length of its own: it throws or stops for lack of memory. That length is
  not in the source; \<open>engine_limit\<close>, a parameter, is the largest length for which the
  engine returns the array, and \<open>EngineLimit\<close> stands for what it does beyond. The
  argument is an \<open>int\<close>, so a fractional length, which throws too, is outside the model.
\<close>

datatype error = RangeError | EngineLimit

definition Array_fill :: "int \<Rightarrow> int \<Rightarrow> 'a \<Rightarrow> error + 'a list" where
  "Array_fill engine_limit len v =
     (if len < 0 \<or> 2 ^ 32 \<le> len then Inl RangeError
      else if engine_limit < len then Inl EngineLimit
      else Inr (replicate (nat len) v))"

text \<open>
  \<open>array.map(f)\<close> for a callback that reads the random source: the elements are visited
  from index 0 upwards and the source is threaded through the calls.
\<close>

fun Array_map :: "('a \<Rightarrow> 's \<Rightarrow> 'b \<times> 's) \<Rightarrow> 'a list \<Rightarrow> 's \<Rightarrow> 'b list \<times> 's" where
  "Array_map f [] s = ([], s)"
| "Array_map f (a # as) s =
     (case f a s of (b, s') \<Rightarrow>
        (case Array_map f as s' of (bs, s'') \<Rightarrow> (b # bs, s'')))"

subsection \<open>\<open>generateDataPoints\<close>\<close>

text \<open>
  The arrow function that \<open>generateDataPoints\<close> maps over the array. Its free variables
  \<open>trueBeta0\<close>, \<open>trueBeta1\<close>, \<open>trueBeta2\<close> and \<open>noise\<close> are parameters; the array element
  is ignored, as in the source. The three calls of \<open>Math.random()\<close> happen in the order
  of the source: for \<open>x\<close>, for \<open>z\<close>, for the noise term of \<open>y\<close>.
\<close>

definition generateDataPoint ::
  "real \<Rightarrow> real \<Rightarrow> real \<Rightarrow> real \<Rightarrow> real \<Rightarrow> Random \<Rightarrow> real Point3D \<times> Random" where
  "generateDataPoint trueBeta0 trueBeta1 trueBeta2 noise element rng =
     (case Math_random rng of (r1, rng1) \<Rightarrow>
      case Math_random rng1 of (r2, rng2) \<Rightarrow>
      case Math_random rng2 of (r3, rng3) \<Rightarrow>
        (let x = (r1 - 0.5) * CUBE_SIZE * 0.8;
             z = (r2 - 0.5) * CUBE_SIZE * 0.8;
             y = trueBeta0 + trueBeta1 * x + trueBeta2 * z
                   + (r3 - 0.5) * noise * CUBE_SIZE * 0.4;
             clampedY = max (- HALF_SIZE * 0.9) (min (HALF_SIZE * 0.9) y)
         in (\<lparr> x = x, y = clampedY, z = z \<rparr>, rng3)))"

text \<open>
  \<open>generateDataPoints(count = 30, noise = 0.8)\<close>: an argument left out is \<open>None\<close> and
  takes its default. The result is the array of points and the random source as the
  calls leave it. The \<open>noise\<close> is a real: a finite number.
\<close>

definition generateDataPoints ::
  "int \<Rightarrow> int option \<Rightarrow> real option \<Rightarrow> Random
     \<Rightarrow> error + (real Point3D list \<times> Random)" where
  "generateDataPoints engine_limit count_arg noise_arg rng =
     (let count = (case count_arg of None \<Rightarrow> 30 | Some c \<Rightarrow> c);
          noise = (case noise_arg of None \<Rightarrow> 0.8 | Some n \<Rightarrow> n);
          trueBeta0 = 0;
          trueBeta1 = 0.5;
          trueBeta2 = - 0.3
      in case Array_fill engine_limit count (0::real) of
           Inl e \<Rightarrow> Inl e
         | Inr zeros \<Rightarrow>
             Inr (Array_map (generateDataPoint trueBeta0 trueBeta1 trueBeta2 noise) zeros rng))"

section \<open>Properties of rounding\<close>

lemma round_even_of_int: "round_even (of_int m) = m"
  by (simp add: round_even_def)

lemma round_even_ge: "of_int n \<le> t \<Longrightarrow> n \<le> round_even t"
proof -
  assume "of_int n \<le> t"
  then have "n \<le> \<lfloor>t\<rfloor>" by (simp add: le_floor_iff)
  then show ?thesis by (simp add: round_even_def Let_def)
qed

lemma round_even_le: "t < of_int n \<Longrightarrow> round_even t \<le> n"
proof -
  assume "t < of_int n"
  then have "\<lfloor>t\<rfloor> < n" by (simp add: floor_less_iff)
  then show ?thesis by (simp add: round_even_def Let_def)
qed

lemma exponent_eq:
  assumes "0 < a" "2 powr of_int k \<le> a" "a < 2 powr of_int (k + 1)"
  shows "exponent a = max (k - 52) (- 1074)"
proof -
  from assms have "\<lfloor>log 2 a\<rfloor> = k"
    by (simp add: floor_log_eq_powr_iff)
  then show ?thesis by (simp add: exponent_def)
qed

lemma exponent_upper:
  assumes "0 < a"
  shows "a < 2 powr of_int (exponent a + 53)"
proof -
  define k where "k = \<lfloor>log 2 a\<rfloor>"
  from assms have "a < 2 powr of_int (k + 1)"
    using floor_log_eq_powr_iff [of a 2 k] by (simp add: k_def)
  also have "2 powr of_int (k + 1) \<le> (2::real) powr of_int (exponent a + 53)"
    by (simp add: exponent_def k_def)
  finally show ?thesis .
qed

lemma exponent_lower:
  assumes "0 < a" "- 1074 < exponent a"
  shows "2 powr of_int (exponent a + 52) \<le> a"
proof -
  define k where "k = \<lfloor>log 2 a\<rfloor>"
  from assms(2) have "exponent a = k - 52"
    by (simp add: exponent_def k_def max_def split: if_splits)
  moreover from assms(1) have "2 powr of_int k \<le> a"
    using floor_log_eq_powr_iff [of a 2 k] by (simp add: k_def)
  ultimately show ?thesis by simp
qed

lemma exponent_ge: "- 1074 \<le> exponent a"
  by (simp add: exponent_def)

lemma round_magnitude_exact:
  assumes "0 < m" "m < 2 ^ 53" "- 1074 \<le> e"
  shows "round_magnitude (of_int m * 2 powr of_int e) = of_int m * 2 powr of_int e"
proof -
  define a :: real where "a = of_int m * 2 powr of_int e"
  have a: "0 < a" using assms by (simp add: a_def)
  define E where "E = exponent a"
  have "a < 2 ^ 53 * 2 powr of_int e"
  proof -
    have "(of_int m :: real) < 2 ^ 53" using assms(2) by (metis of_int_less_numeral_power_cancel_iff)
    then show ?thesis by (simp add: a_def)
  qed
  also have "\<dots> = 2 powr of_int (e + 53)"
    by (simp add: powr_add)
  finally have up: "a < 2 powr of_int (e + 53)" .
  have "\<lfloor>log 2 a\<rfloor> < e + 53"
  proof -
    from a up have "log 2 a < of_int (e + 53)"
      by (metis log_less_iff less_numeral_extra(4) numeral_One numeral_less_iff one_less_numeral_iff semiring_norm(76) zero_less_numeral)
    then show ?thesis by (simp add: floor_less_iff)
  qed
  with assms(3) have le: "E \<le> e"
    by (simp add: E_def exponent_def)
  define n where "n = nat (e - E)"
  have e: "e = E + int n" using le by (simp add: n_def)
  have "a / 2 powr of_int E = of_int m * 2 ^ n"
    by (simp add: a_def e powr_add powr_realpow)
  also have "\<dots> = of_int (m * 2 ^ n)" by simp
  finally have "round_even (a / 2 powr of_int E) = m * 2 ^ n"
    by (simp only: round_even_of_int)
  then have "round_magnitude a = of_int (m * 2 ^ n) * 2 powr of_int E"
    by (simp add: round_magnitude_def E_def)
  also have "\<dots> = a"
    by (simp add: a_def e powr_add powr_realpow)
  finally show ?thesis by (simp add: a_def)
qed

lemma round_magnitude_nonneg: "0 < a \<Longrightarrow> 0 \<le> round_magnitude a"
proof -
  assume "0 < a"
  then have "of_int 0 \<le> a / 2 powr of_int (exponent a)" by simp
  then have "0 \<le> round_even (a / 2 powr of_int (exponent a))" by (rule round_even_ge)
  then show ?thesis by (simp add: round_magnitude_def)
qed

lemma round_magnitude_idem:
  assumes "0 < a" "round_magnitude a < 2 ^ 1024"
  shows "round_magnitude (round_magnitude a) = round_magnitude a"
proof -
  define E where "E = exponent a"
  define M where "M = round_even (a / 2 powr of_int E)"
  have r: "round_magnitude a = of_int M * 2 powr of_int E"
    by (simp add: round_magnitude_def E_def M_def)
  have E: "- 1074 \<le> E" by (simp add: E_def exponent_ge)
  have "of_int 0 \<le> a / 2 powr of_int E" using assms(1) by simp
  then have M0: "0 \<le> M" unfolding M_def by (rule round_even_ge)
  have "a / 2 powr of_int E < 2 powr of_int (E + 53) / 2 powr of_int E"
    using exponent_upper [OF assms(1)] by (simp add: E_def divide_strict_right_mono)
  also have "\<dots> = of_int (2 ^ 53)" by (simp add: powr_add)
  finally have M1: "M \<le> 2 ^ 53" unfolding M_def by (rule round_even_le)
  consider "M = 0" | "0 < M" "M < 2 ^ 53" | "M = 2 ^ 53" using M0 M1 by linarith
  then show ?thesis
  proof cases
    case 1
    with r have z: "round_magnitude a = 0" by simp
    have "round_magnitude 0 = 0" by (simp add: round_magnitude_def round_even_def)
    then show ?thesis by (simp only: z)
  next
    case 2
    then show ?thesis unfolding r using E by (rule round_magnitude_exact)
  next
    case 3
    have "real_of_int M * 2 powr of_int E = of_int (2 ^ 52) * 2 powr of_int (E + 1)"
      by (simp add: 3 powr_add)
    moreover have "round_magnitude (of_int (2 ^ 52) * 2 powr of_int (E + 1))
                     = of_int (2 ^ 52) * 2 powr of_int (E + 1)"
      using E by (intro round_magnitude_exact) simp_all
    ultimately show ?thesis by (simp only: r)
  qed
qed

lemma to_double_idem: "to_double v = Finite r \<Longrightarrow> to_double r = Finite r"
proof -
  assume h: "to_double v = Finite r"
  consider "v = 0" | "0 < v" | "v < 0" by linarith
  then show ?thesis
  proof cases
    case 1
    with h show ?thesis by (simp add: to_double_def)
  next
    case 2
    with h have r: "r = round_magnitude v" and b: "round_magnitude v < 2 ^ 1024"
      by (simp_all add: to_double_def split: if_splits)
    from round_magnitude_nonneg [OF 2] consider "r = 0" | "0 < r" unfolding r by linarith
    then show ?thesis
    proof cases
      case 1
      then show ?thesis by (simp add: to_double_def)
    next
      case 2
      with round_magnitude_idem [OF \<open>0 < v\<close> b] b show ?thesis
        by (simp add: to_double_def r)
    qed
  next
    case 3
    then have p: "0 < - v" by simp
    from 3 h have r: "r = - round_magnitude (- v)" and b: "round_magnitude (- v) < 2 ^ 1024"
      by (simp_all add: to_double_def split: if_splits)
    from round_magnitude_nonneg [OF p] consider "r = 0" | "r < 0" unfolding r by linarith
    then show ?thesis
    proof cases
      case 1
      then show ?thesis by (simp add: to_double_def)
    next
      case 2
      with round_magnitude_idem [OF p b] b show ?thesis
        by (simp add: to_double_def r)
    qed
  qed
qed

lemma to_double_overflow:
  assumes "2 ^ 1024 \<le> v"
  shows "to_double v = PosInf"
proof -
  have v: "0 < v" using assms by (smt (verit) zero_less_power)
  define k where "k = \<lfloor>log 2 v\<rfloor>"
  have kv: "2 powr of_int k \<le> v"
    using v floor_log_eq_powr_iff [of v 2 k] by (simp add: k_def)
  have "v < 2 powr of_int (k + 1)"
    using v floor_log_eq_powr_iff [of v 2 k] by (simp add: k_def)
  moreover have "(2::real) powr of_int 1024 \<le> v"
    using assms by simp
  ultimately have "(2::real) powr of_int 1024 < 2 powr of_int (k + 1)"
    by linarith
  then have "(1024::int) < k + 1"
    by (simp only: powr_less_cancel_iff one_less_numeral_iff semiring_norm of_int_less_iff)
  then have k: "1024 \<le> k"
    by simp
  then have E: "exponent v = k - 52"
    by (simp add: exponent_def k_def)
  have "real_of_int (2 ^ 52) = 2 powr of_int k / 2 powr of_int (k - 52)"
    by (simp add: powr_diff [symmetric])
  also have "\<dots> \<le> v / 2 powr of_int (k - 52)"
    using kv by (simp add: divide_right_mono)
  finally have "2 ^ 52 \<le> round_even (v / 2 powr of_int (k - 52))"
    by (rule round_even_ge)
  then have "(2 ^ 52 :: real) \<le> of_int (round_even (v / 2 powr of_int (k - 52)))"
    by (metis of_int_le_iff of_int_numeral of_int_power)
  then have "2 ^ 52 * 2 powr of_int (k - 52) \<le> round_magnitude v"
    by (simp add: round_magnitude_def E)
  moreover have "2 ^ 52 * 2 powr of_int (k - 52) = (2::real) powr of_int k"
    by (simp add: powr_diff)
  moreover have "(2::real) ^ 1024 \<le> 2 powr of_int k"
  proof -
    have "(2::real) powr of_int 1024 \<le> 2 powr of_int k"
      using k by (simp only: powr_le_cancel_iff one_less_numeral_iff semiring_norm of_int_le_iff)
    moreover have "(2::real) powr of_int 1024 = 2 ^ 1024" by simp
    ultimately show ?thesis by (simp only:)
  qed
  ultimately have "2 ^ 1024 \<le> round_magnitude v" by linarith
  with v show ?thesis by (simp add: to_double_def)
qed

lemma to_double_underflow:
  assumes "v \<le> - (2 ^ 1024)"
  shows "to_double v = NegInf"
proof -
  from assms have "2 ^ 1024 \<le> - v" by simp
  from to_double_overflow [OF this] have "2 ^ 1024 \<le> round_magnitude (- v)"
    by (auto simp: to_double_def split: if_splits)
  moreover have "v < 0" using assms by (smt (verit) zero_less_power)
  ultimately show ?thesis by (simp add: to_double_def)
qed

text \<open>Finite values that are doubles, and values that round.\<close>

lemma to_double_exact:
  assumes "0 < m" "m < 2 ^ 53" "- 1074 \<le> e" "real_of_int m * 2 powr of_int e < 2 ^ 1024"
  shows "to_double (of_int m * 2 powr of_int e) = Finite (of_int m * 2 powr of_int e)"
proof -
  have "0 < real_of_int m * 2 powr of_int e" using assms(1) by simp
  moreover have "round_magnitude (of_int m * 2 powr of_int e) = of_int m * 2 powr of_int e"
    using assms(1-3) by (rule round_magnitude_exact)
  ultimately show ?thesis using assms(4) by (simp add: to_double_def)
qed

lemma to_double_round:
  assumes "0 < v" "2 powr of_int k \<le> v" "v < 2 powr of_int (k + 1)" "- 1022 \<le> k"
    and "round_even (v / 2 powr of_int (k - 52)) = M"
    and "real_of_int M * 2 powr of_int (k - 52) < 2 ^ 1024"
  shows "to_double v = Finite (of_int M * 2 powr of_int (k - 52))"
proof -
  from assms(1-4) have "exponent v = k - 52"
    by (simp add: exponent_eq)
  with assms(5) have "round_magnitude v = of_int M * 2 powr of_int (k - 52)"
    by (simp add: round_magnitude_def)
  with assms(1,6) show ?thesis by (simp add: to_double_def)
qed

lemma to_double_zero: "to_double 0 = Finite 0"
  by (simp add: to_double_def)

lemma to_double_minus: "to_double (- v) = number_neg (to_double v)"
  by (simp add: to_double_def)

text \<open>
  Three known facts of double arithmetic, as checks of the model: the double nearest to
  \<open>0.1\<close>; \<open>0.1 + 0.2\<close>, which is \<open>0.30000000000000004\<close>; and \<open>2\<^sup>5\<^sup>3 + 1\<close>, a tie that
  goes to the even neighbour \<open>2\<^sup>5\<^sup>3\<close>.
\<close>

lemma to_double_one_tenth:
  "to_double (1 / 10) = Finite (3602879701896397 / 36028797018963968)"
  using to_double_round [of "1 / 10" "- 4" 7205759403792794]
  by (simp add: round_even_def powr_neg_numeral)

lemma number_add_example:
  "number_add (Finite (3602879701896397 / 36028797018963968))
              (Finite (3602879701896397 / 18014398509481984))
     = Finite (1351079888211149 / 4503599627370496)"
  using to_double_round [of "10808639105689191 / 36028797018963968" "- 2" 5404319552844596]
  by (simp add: round_even_def powr_neg_numeral)

lemma to_double_tie: "to_double 9007199254740993 = Finite 9007199254740992"
  using to_double_round [of 9007199254740993 53 4503599627370496]
  by (simp add: round_even_def)

text \<open>The doubles and the roundings of the runs below.\<close>

lemma run_double_1: "to_double 134217728 = Finite 134217728"
  using to_double_exact [of 134217728 0] by simp

lemma run_double_2: "to_double 18014398509481984 = Finite 18014398509481984"
  using to_double_exact [of 1 54] by simp

lemma run_double_3: "to_double (9 / 4) = Finite (9 / 4)"
  using to_double_exact [of 9 "- 2"] by (simp add: powr_neg_numeral)

lemma run_double_4: "to_double (3 / 2) = Finite (3 / 2)"
  using to_double_exact [of 3 "- 1"] by (simp add: powr_minus)

lemma run_double_5: "to_double (9 / 2) = Finite (9 / 2)"
  using to_double_exact [of 9 "- 1"] by (simp add: powr_minus)

lemma run_double_6: "to_double (72057594037927945 / 4) = Finite 18014398509481988"
  using to_double_round [of "72057594037927945 / 4" 54 4503599627370497]
  by (simp add: round_even_def)

lemma run_double_7: "to_double (72057594037927961 / 4) = Finite 18014398509481992"
  using to_double_round [of "72057594037927961 / 4" 54 4503599627370498]
  by (simp add: round_even_def)

lemma run_double_8: "to_double (36028797018963977 / 2) = Finite 18014398509481988"
  using to_double_round [of "36028797018963977 / 2" 54 4503599627370497]
  by (simp add: round_even_def)

lemma to_double_nonneg: "0 \<le> v \<Longrightarrow> number_nonneg (to_double v)"
  by (simp add: to_double_def round_magnitude_nonneg)

lemma is_double_to_double: "is_double (to_double v)"
  by (cases "to_double v") (simp_all add: to_double_idem)

lemma nonneg_square_correctly_rounded: "nonneg_square correctly_rounded_square"
  by (simp add: nonneg_square_def correctly_rounded_square_def to_double_nonneg)

lemma double_valued_correctly_rounded: "double_valued correctly_rounded_square"
  by (simp add: double_valued_def correctly_rounded_square_def is_double_to_double)

lemma number_add_commute: "number_add a b = number_add b a"
  by (cases a; cases b) (simp_all add: add.commute)

lemma number_add_zero_left: "is_double a \<Longrightarrow> number_add (Finite 0) a = a"
  by (cases a) simp_all

lemma number_add_nonneg:
  "a = NaN \<or> number_nonneg a \<Longrightarrow> b = NaN \<or> number_nonneg b
     \<Longrightarrow> number_add a b = NaN \<or> number_nonneg (number_add a b)"
  by (cases a; cases b) (simp_all add: to_double_nonneg)

lemma Math_pow_2_nonneg:
  "nonneg_square pow2 \<Longrightarrow> Math_pow_2 pow2 v = NaN \<or> number_nonneg (Math_pow_2 pow2 v)"
  by (cases v) (simp_all add: nonneg_square_def)

lemma Math_pow_2_is_double: "double_valued pow2 \<Longrightarrow> is_double (Math_pow_2 pow2 v)"
  by (cases v) (simp_all add: double_valued_def to_double_def)

section \<open>Properties of \<open>calculateError\<close>\<close>

lemma calculateError_foldl:
  "calculateError pow2 points equation
     = foldl (\<lambda>totalError point. number_add totalError (squared_residual pow2 equation point))
             (Finite 0) points"
  by (simp add: calculateError_def squared_residual_def Let_def)

lemma foldl_nan_or_nonneg:
  assumes "nonneg_square pow2"
  shows "acc = NaN \<or> number_nonneg acc \<Longrightarrow>
         foldl (\<lambda>totalError point. number_add totalError (squared_residual pow2 equation point))
               acc points = NaN
       \<or> number_nonneg
           (foldl (\<lambda>totalError point. number_add totalError (squared_residual pow2 equation point))
                  acc points)"
proof (induction points arbitrary: acc)
  case Nil
  then show ?case by simp
next
  case (Cons p ps)
  have "squared_residual pow2 equation p = NaN \<or> number_nonneg (squared_residual pow2 equation p)"
    unfolding squared_residual_def using assms by (rule Math_pow_2_nonneg)
  with Cons.prems
  have "number_add acc (squared_residual pow2 equation p) = NaN
        \<or> number_nonneg (number_add acc (squared_residual pow2 equation p))"
    by (rule number_add_nonneg)
  from Cons.IH [OF this] show ?case by simp
qed

text \<open>A run on small integers, where nothing rounds: the residual is \<open>2 - 12\<close>.\<close>

lemma calculateError_example:
  "calculateError correctly_rounded_square
     [\<lparr> x = Finite 1, y = Finite 2, z = Finite 3 \<rparr>]
     \<lparr> beta0 = Finite 1, beta1 = Finite 2, beta2 = Finite 3 \<rparr> = Finite 100"
proof -
  have i: "to_double (of_int m) = Finite (of_int m)" if "0 < m" "m < 2 ^ 53" for m
    using to_double_exact [of m 0] that by simp
  have e: "to_double 2 = Finite 2" "to_double 3 = Finite 3" "to_double 9 = Finite 9"
    "to_double 12 = Finite 12" "to_double 10 = Finite 10" "to_double 100 = Finite 100"
    using i [of 2] i [of 3] i [of 9] i [of 12] i [of 10] i [of 100] by simp_all
  have "to_double (- 10) = Finite (- 10)"
    using to_double_minus [of 10] by (simp add: e)
  then show ?thesis
    by (simp add: calculateError_def Let_def number_sub_def correctly_rounded_square_def e
        to_double_zero)
qed

text \<open>
  Claim C5 says that \<open>calculateError\<close> is never negative. It is not a number at all
  where the two products of \<open>predictedY\<close> overflow to opposite infinities:
  \<open>2\<^sup>1\<^sup>0\<^sup>2\<^sup>3 * 2\<close> is \<open>Infinity\<close>, \<open>0 + Infinity + -Infinity\<close> is \<open>NaN\<close>, and so are the
  residual, its square and the total.
\<close>

theorem calculateError_overflow_counterexample:
  "calculateError correctly_rounded_square
     [\<lparr> x = Finite 2, y = Finite 0, z = Finite 2 \<rparr>]
     \<lparr> beta0 = Finite 0, beta1 = Finite (2 ^ 1023), beta2 = Finite (- (2 ^ 1023)) \<rparr> = NaN"
proof -
  have up: "to_double (2 ^ 1023 * 2) = PosInf"
    by (rule to_double_overflow) simp
  have down: "to_double (- (2 ^ 1023 * 2)) = NegInf"
    by (rule to_double_underflow) simp
  show ?thesis
    by (simp add: calculateError_def Let_def number_sub_def up down del: power_numeral)
qed

text \<open>
  Claim C5, amended. \<open>calculateError\<close> is the sum, taken from 0 in double arithmetic
  and in the order of the points, of the squared residuals
  \<open>Math.pow(y - (beta0 + beta1 * x + beta2 * z), 2)\<close>; it is 0 on the empty sequence;
  and on every input it is \<open>NaN\<close> or not negative (a finite number from 0 on, or
  \<open>Infinity\<close>).
\<close>

theorem calculateError_sum_nan_or_nonneg:
  assumes "nonneg_square pow2"
  shows "calculateError pow2 points equation
           = foldl number_add (Finite 0) (map (squared_residual pow2 equation) points)
       \<and> calculateError pow2 [] equation = Finite 0
       \<and> (calculateError pow2 points equation = NaN
            \<or> number_nonneg (calculateError pow2 points equation))"
proof -
  have "calculateError pow2 points equation
          = foldl number_add (Finite 0) (map (squared_residual pow2 equation) points)"
    by (simp add: calculateError_foldl foldl_map)
  moreover have "calculateError pow2 [] equation = Finite 0"
    by (simp add: calculateError_def)
  moreover have "calculateError pow2 points equation = NaN
            \<or> number_nonneg (calculateError pow2 points equation)"
    unfolding calculateError_foldl using assms by (rule foldl_nan_or_nonneg) simp
  ultimately show ?thesis by blast
qed

theorem calculateError_sum_nan_or_nonneg_witness:
  "nonneg_square correctly_rounded_square
   \<and> calculateError correctly_rounded_square
         [\<lparr> x = Finite 1, y = Finite 2, z = Finite 3 \<rparr>]
         \<lparr> beta0 = Finite 1, beta1 = Finite 2, beta2 = Finite 3 \<rparr>
       = foldl number_add (Finite 0)
           (map (squared_residual correctly_rounded_square
                   \<lparr> beta0 = Finite 1, beta1 = Finite 2, beta2 = Finite 3 \<rparr>)
                [\<lparr> x = Finite 1, y = Finite 2, z = Finite 3 \<rparr>])
   \<and> calculateError correctly_rounded_square []
         \<lparr> beta0 = Finite 1, beta1 = Finite 2, beta2 = Finite 3 \<rparr> = Finite 0
   \<and> (calculateError correctly_rounded_square
         [\<lparr> x = Finite 1, y = Finite 2, z = Finite 3 \<rparr>]
         \<lparr> beta0 = Finite 1, beta1 = Finite 2, beta2 = Finite 3 \<rparr> = NaN
      \<or> number_nonneg
           (calculateError correctly_rounded_square
              [\<lparr> x = Finite 1, y = Finite 2, z = Finite 3 \<rparr>]
              \<lparr> beta0 = Finite 1, beta1 = Finite 2, beta2 = Finite 3 \<rparr>))"
  using calculateError_sum_nan_or_nonneg [OF nonneg_square_correctly_rounded,
      of "[\<lparr> x = Finite 1, y = Finite 2, z = Finite 3 \<rparr>]"
         "\<lparr> beta0 = Finite 1, beta1 = Finite 2, beta2 = Finite 3 \<rparr>"]
    nonneg_square_correctly_rounded
  by blast

text \<open>
  Claim C8 says that reordering the points does not change the total error. Double
  addition is not associative, and three points are enough to see it: with all
  coefficients 0 the squared residuals of the points below are \<open>2\<^sup>5\<^sup>4\<close>, \<open>2.25\<close> and
  \<open>2.25\<close>, and the doubles from \<open>2\<^sup>5\<^sup>4\<close> on are 4 apart. Adding \<open>2.25\<close> twice to \<open>2\<^sup>5\<^sup>4\<close>
  rounds up twice, to \<open>2\<^sup>5\<^sup>4 + 8\<close>; adding \<open>2\<^sup>5\<^sup>4\<close> to \<open>4.5\<close> rounds to \<open>2\<^sup>5\<^sup>4 + 4\<close>.
\<close>

theorem calculateError_reorder_counterexample:
  "mset [\<lparr> x = Finite 0, y = Finite 134217728, z = Finite 0 \<rparr>,
         \<lparr> x = Finite 0, y = Finite (3 / 2), z = Finite 0 \<rparr>,
         \<lparr> x = Finite 0, y = Finite (3 / 2), z = Finite 0 \<rparr>]
     = mset [\<lparr> x = Finite 0, y = Finite (3 / 2), z = Finite 0 \<rparr>,
             \<lparr> x = Finite 0, y = Finite (3 / 2), z = Finite 0 \<rparr>,
             \<lparr> x = Finite 0, y = Finite 134217728, z = Finite 0 \<rparr>]
   \<and> calculateError correctly_rounded_square
     [\<lparr> x = Finite 0, y = Finite 134217728, z = Finite 0 \<rparr>,
      \<lparr> x = Finite 0, y = Finite (3 / 2), z = Finite 0 \<rparr>,
      \<lparr> x = Finite 0, y = Finite (3 / 2), z = Finite 0 \<rparr>]
     \<lparr> beta0 = Finite 0, beta1 = Finite 0, beta2 = Finite 0 \<rparr> = Finite 18014398509481992
   \<and> calculateError correctly_rounded_square
     [\<lparr> x = Finite 0, y = Finite (3 / 2), z = Finite 0 \<rparr>,
      \<lparr> x = Finite 0, y = Finite (3 / 2), z = Finite 0 \<rparr>,
      \<lparr> x = Finite 0, y = Finite 134217728, z = Finite 0 \<rparr>]
     \<lparr> beta0 = Finite 0, beta1 = Finite 0, beta2 = Finite 0 \<rparr> = Finite 18014398509481988"
proof -
  have z: "to_double 0 = Finite 0" by (simp add: to_double_def)
  show ?thesis
    by (simp add: calculateError_def Let_def number_sub_def correctly_rounded_square_def
        z run_double_1 run_double_2 run_double_3 run_double_4 run_double_5 run_double_6
        run_double_7 run_double_8)
qed

lemma squared_residual_is_double:
  "double_valued pow2 \<Longrightarrow> is_double (squared_residual pow2 equation point)"
  unfolding squared_residual_def by (rule Math_pow_2_is_double)

lemma calculateError_two:
  assumes "double_valued pow2"
  shows "calculateError pow2 [p, q] equation = calculateError pow2 [q, p] equation"
proof -
  have p: "number_add (Finite 0) (squared_residual pow2 equation p) = squared_residual pow2 equation p"
    using assms by (intro number_add_zero_left squared_residual_is_double)
  have q: "number_add (Finite 0) (squared_residual pow2 equation q) = squared_residual pow2 equation q"
    using assms by (intro number_add_zero_left squared_residual_is_double)
  show ?thesis
    by (simp add: calculateError_foldl p q number_add_commute)
qed

text \<open>
  Claim C8, amended. For sequences of at most two points reordering does not change the
  total error: both orders give the same number, or both give \<open>NaN\<close>.
\<close>

theorem calculateError_two_point_permutation:
  assumes "double_valued pow2" "length points \<le> 2" "mset points = mset points'"
  shows "calculateError pow2 points equation = calculateError pow2 points' equation"
proof -
  from assms(3) have len: "length points' = length points"
    by (metis size_mset)
  consider "points = []" | p where "points = [p]" | p q where "points = [p, q]"
    using assms(2) by (cases points rule: list.exhaust; cases "tl points") auto
  then show ?thesis
  proof cases
    case 1
    with len show ?thesis by simp
  next
    case 2
    with assms(3) len show ?thesis
      by (cases points') auto
  next
    case 3
    from len 3 obtain a b where ab: "points' = [a, b]"
      by (cases points'; cases "tl points'") auto
    from assms(3) have "(a = p \<and> b = q) \<or> (a = q \<and> b = p)"
      by (auto simp: 3 ab add_eq_conv_ex)
    with calculateError_two [OF assms(1), of p q equation] show ?thesis
      by (auto simp: 3 ab)
  qed
qed

theorem calculateError_two_point_permutation_witness:
  "double_valued correctly_rounded_square
   \<and> length [\<lparr> x = Finite 1, y = Finite 2, z = Finite 3 \<rparr>,
             \<lparr> x = Finite 0, y = Finite 1, z = Finite (- 1) \<rparr>] \<le> 2
   \<and> mset [\<lparr> x = Finite 1, y = Finite 2, z = Finite 3 \<rparr>,
           \<lparr> x = Finite 0, y = Finite 1, z = Finite (- 1) \<rparr>]
     = mset [\<lparr> x = Finite 0, y = Finite 1, z = Finite (- 1) \<rparr>,
             \<lparr> x = Finite 1, y = Finite 2, z = Finite 3 \<rparr>]
   \<and> calculateError correctly_rounded_square
         [\<lparr> x = Finite 1, y = Finite 2, z = Finite 3 \<rparr>,
          \<lparr> x = Finite 0, y = Finite 1, z = Finite (- 1) \<rparr>]
         \<lparr> beta0 = Finite 1, beta1 = Finite 2, beta2 = Finite (1 / 2) \<rparr>
     = calculateError correctly_rounded_square
         [\<lparr> x = Finite 0, y = Finite 1, z = Finite (- 1) \<rparr>,
          \<lparr> x = Finite 1, y = Finite 2, z = Finite 3 \<rparr>]
         \<lparr> beta0 = Finite 1, beta1 = Finite 2, beta2 = Finite (1 / 2) \<rparr>"
proof -
  let ?ps = "[\<lparr> x = Finite 1, y = Finite 2, z = Finite 3 \<rparr>,
              \<lparr> x = Finite 0, y = Finite 1, z = Finite (- 1) \<rparr>]"
  let ?qs = "[\<lparr> x = Finite 0, y = Finite 1, z = Finite (- 1) \<rparr>,
              \<lparr> x = Finite 1, y = Finite 2, z = Finite 3 \<rparr>]"
  have l: "length ?ps \<le> 2" by simp
  have m: "mset ?ps = mset ?qs" by simp
  from calculateError_two_point_permutation [OF double_valued_correctly_rounded l m]
    double_valued_correctly_rounded l m
  show ?thesis by blast
qed

section \<open>Properties of \<open>calculatePlaneEquation\<close>\<close>


section \<open>Properties of \<open>generateDataPoints\<close>\<close>

lemma Array_map_length: "length (fst (Array_map f as s)) = length as"
proof (induction as arbitrary: s)
  case Nil
  then show ?case by simp
next
  case (Cons a as)
  obtain b s' where fa: "f a s = (b, s')" by (cases "f a s")
  obtain bs s'' where rest: "Array_map f as s' = (bs, s'')" by (cases "Array_map f as s'")
  from Cons.IH [of s'] rest have "length bs = length as" by simp
  with fa rest show ?case by simp
qed

text \<open>
  What every call of the callback establishes, given an invariant of the threaded state,
  holds of every element of the result.
\<close>

lemma Array_map_all:
  assumes step: "\<And>a s. I s \<Longrightarrow> P (fst (f a s)) \<and> I (snd (f a s))"
  shows "I s \<Longrightarrow> \<forall>b \<in> set (fst (Array_map f as s)). P b"
proof (induction as arbitrary: s)
  case Nil
  then show ?case by simp
next
  case (Cons a as)
  obtain b s' where fa: "f a s = (b, s')" by (cases "f a s")
  from step [OF Cons.prems, of a] fa have b: "P b" and s': "I s'" by simp_all
  obtain bs s'' where rest: "Array_map f as s' = (bs, s'')" by (cases "Array_map f as s'")
  from Cons.IH [OF s'] rest have "\<forall>b \<in> set bs. P b" by simp
  with b fa rest show ?case by simp
qed


lemma generateDataPoints_unfold:
  "generateDataPoints engine_limit (Some n) (Some noise) rng =
     (if n < 0 \<or> 2 ^ 32 \<le> n then Inl RangeError
      else if engine_limit < n then Inl EngineLimit
      else Inr (Array_map (generateDataPoint 0 0.5 (- 0.3) noise) (replicate (nat n) 0) rng))"
  by (simp add: generateDataPoints_def Array_fill_def Let_def)

text \<open>The clamp, whatever the noise and the random numbers are.\<close>

lemma generateDataPoint_clamped:
  "- (0.45 * CUBE_SIZE) \<le> y (fst (generateDataPoint b0 b1 b2 noise element rng))
   \<and> y (fst (generateDataPoint b0 b1 b2 noise element rng)) \<le> 0.45 * CUBE_SIZE"
  by (auto simp: generateDataPoint_def Let_def HALF_SIZE_def CUBE_SIZE_def max_def min_def
      split: prod.splits)




text \<open>
  Claim C7 says that every non-negative integer count gives exactly that many points. It
  does not for a count from \<open>2\<^sup>3\<^sup>2\<close> on, whatever the engine: \<open>Array(count)\<close> throws and
  no point is returned.
\<close>

theorem generateDataPoints_count_counterexample:
  "generateDataPoints 4294967295 (Some 4294967296) (Some 0) (fixed_source 0) = Inl RangeError"
  by (simp add: generateDataPoints_def Array_fill_def Let_def)

text \<open>
  Claim C7, amended. For every integer count from 0 up to the largest array length that
  the engine returns, itself at most \<open>2\<^sup>3\<^sup>2 - 1\<close>, and every finite noise, whatever the
  random numbers are, \<open>generateDataPoints\<close> returns exactly \<open>count\<close> points and the \<open>y\<close>
  of each lies in \<open>[-0.45 * CUBE_SIZE, 0.45 * CUBE_SIZE]\<close>.
\<close>

theorem generateDataPoints_count_and_clamp:
  assumes "0 \<le> n" "n \<le> engine_limit" "n < 2 ^ 32"
  shows "\<exists>points rng'.
           generateDataPoints engine_limit (Some n) (Some noise) rng = Inr (points, rng')
         \<and> int (length points) = n
         \<and> (\<forall>p \<in> set points. - (0.45 * CUBE_SIZE) \<le> y p \<and> y p \<le> 0.45 * CUBE_SIZE)"
proof -
  let ?f = "generateDataPoint 0 0.5 (- 0.3) noise"
  obtain points rng' where run: "Array_map ?f (replicate (nat n) 0) rng = (points, rng')"
    by (cases "Array_map ?f (replicate (nat n) 0) rng")
  from assms run
  have g: "generateDataPoints engine_limit (Some n) (Some noise) rng = Inr (points, rng')"
    by (simp add: generateDataPoints_unfold)
  from Array_map_length [of ?f "replicate (nat n) 0" rng] run assms
  have len: "int (length points) = n"
    by simp
  have "\<forall>p \<in> set (fst (Array_map ?f (replicate (nat n) 0) rng)).
          - (0.45 * CUBE_SIZE) \<le> y p \<and> y p \<le> 0.45 * CUBE_SIZE"
  proof (rule Array_map_all [where I = "\<lambda>_. True"])
    fix a s
    show "(- (0.45 * CUBE_SIZE) \<le> y (fst (?f a s)) \<and> y (fst (?f a s)) \<le> 0.45 * CUBE_SIZE)
            \<and> True"
      using generateDataPoint_clamped [of 0 "0.5" "- 0.3" noise a s] by blast
  qed (rule TrueI)
  then have "\<forall>p \<in> set points. - (0.45 * CUBE_SIZE) \<le> y p \<and> y p \<le> 0.45 * CUBE_SIZE"
    by (simp only: run fst_conv)
  with g len show ?thesis
    by blast
qed

theorem generateDataPoints_count_and_clamp_witness:
  "(0::int) \<le> 2 \<and> (2::int) \<le> 1000000 \<and> (2::int) < 2 ^ 32
   \<and> (\<exists>points rng'.
         generateDataPoints 1000000 (Some 2) (Some 1000) (fixed_source 0) = Inr (points, rng')
       \<and> int (length points) = 2
       \<and> (\<forall>p \<in> set points. - (0.45 * CUBE_SIZE) \<le> y p \<and> y p \<le> 0.45 * CUBE_SIZE))"
  using generateDataPoints_count_and_clamp [of 2 1000000 1000 "fixed_source 0"] by simp

text \<open>That run, computed: the noise term is \<open>- 1000\<close> and the clamp cuts it off.\<close>

lemma generateDataPoints_example:
  "generateDataPoints 1000000 (Some 2) (Some 1000) (fixed_source 0)
     = Inr ([\<lparr> x = - 2, y = - (9 / 4), z = - 2 \<rparr>, \<lparr> x = - 2, y = - (9 / 4), z = - 2 \<rparr>],
            \<lparr> draws = (\<lambda>_. 0), drawn = 6 \<rparr>)"
  by (simp add: generateDataPoints_def Array_fill_def Let_def eval_nat_numeral
      generateDataPoint_def Math_random_def fixed_source_def CUBE_SIZE_def HALF_SIZE_def)

text \<open>A count beyond the limit of the engine, below that of the language.\<close>

lemma generateDataPoints_engine_limit_example:
  "generateDataPoints 1000000 (Some 1000001) (Some 0) (fixed_source 0) = Inl EngineLimit"
  by (simp add: generateDataPoints_def Array_fill_def Let_def)

end
